theory Spec2Isabelle
  imports
    Main
    "HOL-Library.Sublist"
    "HOL-Library.Char_ord"
    "HOL-Library.List_Lexorder"
    "HOL-Library.Product_Lexorder"
    "HOL-Library.Multiset"
    "HOL-Library.Word"
begin

section \<open>Strings and the POSIX \<open>os.path\<close> functions used by \<open>file_system.py\<close>\<close>

text \<open>
  Paths are Python strings, modelled as \<^typ>\<open>string\<close>. The functions below follow
  CPython's \<^verbatim>\<open>posixpath.py\<close> (\<^verbatim>\<open>os.path\<close> on the platform of the repository's tests)
  statement by statement.
\<close>

definition startswith :: "string \<Rightarrow> string \<Rightarrow> bool" where
  "startswith s p = (take (length p) s = p)"

definition endswith :: "string \<Rightarrow> string \<Rightarrow> bool" where
  "endswith s p = (length p \<le> length s \<and> drop (length s - length p) s = p)"

text \<open>\<^verbatim>\<open>s.split('/')\<close>: every separator ends a component; the result is never empty.\<close>

fun split_sep :: "string \<Rightarrow> string list" where
  "split_sep [] = [[]]"
| "split_sep (c # cs) =
     (if c = CHR ''/'' then [] # split_sep cs
      else (case split_sep cs of [] \<Rightarrow> [[c]] | w # ws \<Rightarrow> (c # w) # ws))"

text \<open>\<^verbatim>\<open>'/'.join(comps)\<close>.\<close>

fun join_sep :: "string list \<Rightarrow> string" where
  "join_sep [] = []"
| "join_sep [x] = x"
| "join_sep (x # y # ys) = x @ CHR ''/'' # join_sep (y # ys)"

text \<open>The one-character string holding a backslash.\<close>

definition backslash :: string where
  "backslash = [CHR 0x5C]"

definition isabs :: "string \<Rightarrow> bool" where
  "isabs s = startswith s ''/''"

text \<open>\<^verbatim>\<open>os.path.join(a, b)\<close> with one tail argument, the only form the source uses.\<close>

definition path_join :: "string \<Rightarrow> string \<Rightarrow> string" where
  "path_join a b =
     (if startswith b ''/'' then b
      else if a = [] \<or> endswith a ''/'' then a @ b
      else a @ ''/'' @ b)"

text \<open>
  The loop of \<^verbatim>\<open>normpath\<close> over the components; \<open>ini\<close> is \<^verbatim>\<open>initial_slashes\<close>
  (0, 1 or 2) and \<open>new\<close> is \<^verbatim>\<open>new_comps\<close>, appended to and popped at its end.
\<close>

fun normpath_loop :: "nat \<Rightarrow> string list \<Rightarrow> string list \<Rightarrow> string list" where
  "normpath_loop ini [] new = new"
| "normpath_loop ini (c # comps) new =
     (if c = [] \<or> c = ''.'' then normpath_loop ini comps new
      else if c \<noteq> ''..'' \<or> (ini = 0 \<and> new = []) \<or> (new \<noteq> [] \<and> last new = ''..'')
        then normpath_loop ini comps (new @ [c])
      else if new \<noteq> [] then normpath_loop ini comps (butlast new)
      else normpath_loop ini comps new)"

definition initial_slashes :: "string \<Rightarrow> nat" where
  "initial_slashes path =
     (if startswith path ''/'' then
        (if startswith path ''//'' \<and> \<not> startswith path ''///'' then 2 else 1)
      else 0)"

definition normpath :: "string \<Rightarrow> string" where
  "normpath path =
     (if path = [] then ''.''
      else
        let ini = initial_slashes path;
            comps = normpath_loop ini (split_sep path) [];
            p = replicate ini (CHR ''/'') @ join_sep comps
        in if p = [] then ''.'' else p)"

text \<open>\<^verbatim>\<open>os.path.abspath\<close>; \<open>cwd\<close> is what \<^verbatim>\<open>os.getcwd()\<close> returns.\<close>

definition abspath :: "string \<Rightarrow> string \<Rightarrow> string" where
  "abspath cwd path = normpath (if isabs path then path else path_join cwd path)"

text \<open>The components \<^verbatim>\<open>commonpath\<close> compares: \<^verbatim>\<open>[c for c in s if c and c != '.']\<close>.\<close>

definition path_parts :: "string \<Rightarrow> string list" where
  "path_parts p = filter (\<lambda>c. c \<noteq> [] \<and> c \<noteq> ''.'') (split_sep p)"

text \<open>
  Python exceptions. Every failure that \<^verbatim>\<open>file_system.py\<close> raises itself is a
  \<^verbatim>\<open>ValueError\<close> told apart by its message only; \<open>reason\<close> names the message.
\<close>

datatype size_limit_kind = READ | RETURN | NONE

datatype reason =
    AccessDenied             \<comment> \<open>"Access to the path is not allowed." and its snapshot twin\<close>
  | NotFound                 \<comment> \<open>"Path ... is not found."\<close>
  | NotADirectory            \<comment> \<open>"Path is not a directory"\<close>
  | IsADirectory             \<comment> \<open>"Path is a directory"\<close>
  | TooLarge size_limit_kind \<comment> \<open>"File ... is too large to download." / "... to return."\<close>
  | SnapshotsDisabled        \<comment> \<open>"Snapshot support is disabled."\<close>
  | SnapshotRootUnavailable  \<comment> \<open>"Snapshot root ... is not available."\<close>
  | SnapshotUnavailable      \<comment> \<open>"Snapshot ... is not available."\<close>
  | Unavailable              \<comment> \<open>"hachoir is not available to extract metadata."\<close>
  | MixedPaths               \<comment> \<open>\<^verbatim>\<open>commonpath\<close>: "Can't mix absolute and relative paths"\<close>

datatype exn =
    ValueError reason
  | SystemExit               \<comment> \<open>\<^verbatim>\<open>raise SystemExit(...)\<close>: asks the interpreter to exit\<close>
  | IndexError
  | OSError

text \<open>
  The loop of \<^verbatim>\<open>commonpath\<close>: \<^verbatim>\<open>s1[:i]\<close> for the first \<open>i\<close> with
  \<^verbatim>\<open>s1[i] != s2[i]\<close>, else \<open>s1\<close>; reading \<^verbatim>\<open>s2[i]\<close> past the end raises.
\<close>

fun common_loop :: "string list \<Rightarrow> string list \<Rightarrow> string list option" where
  "common_loop [] s2 = Some []"
| "common_loop (c # cs) [] = None"
| "common_loop (c # cs) (d # ds) =
     (if c \<noteq> d then Some [] else map_option ((#) c) (common_loop cs ds))"

text \<open>\<^verbatim>\<open>os.path.commonpath([p1, p2])\<close>.\<close>

definition commonpath :: "string \<Rightarrow> string \<Rightarrow> exn + string" where
  "commonpath p1 p2 =
     (if isabs p1 \<noteq> isabs p2 then Inl (ValueError MixedPaths)
      else
        let a = path_parts p1; b = path_parts p2
        in case common_loop (min a b) (max a b) of
             None \<Rightarrow> Inl IndexError
           | Some common \<Rightarrow> Inr ((if isabs p1 then ''/'' else []) @ join_sep common))"

text \<open>\<^verbatim>\<open>os.path.basename\<close>: what follows the last separator.\<close>

definition basename :: "string \<Rightarrow> string" where
  "basename p = last (split_sep p)"

definition rstrip_sep :: "string \<Rightarrow> string" where
  "rstrip_sep s = rev (dropWhile (\<lambda>c. c = CHR ''/'') (rev s))"

text \<open>\<^verbatim>\<open>os.path.dirname\<close>: the head up to the last separator, trailing separators removed.\<close>

definition dirname :: "string \<Rightarrow> string" where
  "dirname p =
     (let head = take (length p - length (basename p)) p
      in if head \<noteq> [] \<and> head \<noteq> replicate (length head) (CHR ''/'') then rstrip_sep head
         else head)"

section \<open>Configuration and environment\<close>

text \<open>
  \<^verbatim>\<open>Config\<close> (\<^verbatim>\<open>app/config.py\<close>) is an attribute bag read by \<^verbatim>\<open>FileSystem\<close>;
  its fields are parameters here. \<open>None\<close> is Python's \<^verbatim>\<open>None\<close>.
\<close>

record config =
  file_system_path :: string
  snapshot_folder_name :: "string option"
  include_snapshot_root :: bool
  exclude_folders :: "string list"
  max_scan_items :: "int option"
  max_return_file_size :: "int option"
  max_read_file_size :: "int option"

type_synonym bytes = "8 word list"

text \<open>One \<^verbatim>\<open>os.DirEntry\<close> of \<^verbatim>\<open>os.scandir\<close>: name, \<^verbatim>\<open>is_dir()\<close>, \<^verbatim>\<open>stat().st_size\<close>.\<close>

datatype dir_entry = DirEntry (entry_name: string) (entry_is_dir: bool) (entry_size: int)

text \<open>
  What the code asks of its surroundings: the working directory, the file system calls
  (each a function of the path string it is given), the optional \<^verbatim>\<open>hachoir\<close> library and
  the time zone names that \<^verbatim>\<open>strptime\<close> accepts for \<^verbatim>\<open>%Z\<close>.
\<close>

record env =
  getcwd :: string
  path_exists :: "string \<Rightarrow> bool"
  path_isdir :: "string \<Rightarrow> bool"
  scandir :: "string \<Rightarrow> dir_entry list"
  stat_size :: "string \<Rightarrow> int"
  read_bytes :: "string \<Rightarrow> bytes option"
  read_text :: "string \<Rightarrow> string option"
  hachoir_installed :: bool
  create_parser :: "string \<Rightarrow> bool"
  extract_metadata :: "string \<Rightarrow> (string \<times> string list) list option"
  tz_names :: "string list"

text \<open>Python truthiness of an optional string and of an optional integer.\<close>

fun truthy_str :: "string option \<Rightarrow> bool" where
  "truthy_str None = False"
| "truthy_str (Some s) = (s \<noteq> [])"

fun truthy_int :: "int option \<Rightarrow> bool" where
  "truthy_int None = False"
| "truthy_int (Some n) = (n \<noteq> 0)"

section \<open>Path resolution (\<open>FileSystem\<close>, private methods)\<close>

definition check_path_is_in_excluded_folder :: "config \<Rightarrow> string \<Rightarrow> bool" where
  "check_path_is_in_excluded_folder cfg path =
     list_ex (\<lambda>excluded. startswith path excluded) (exclude_folders cfg)"

definition require_path_is_in_excluded_folder :: "config \<Rightarrow> string \<Rightarrow> exn + unit" where
  "require_path_is_in_excluded_folder cfg path =
     (if check_path_is_in_excluded_folder cfg path then Inl (ValueError NotFound) else Inr ())"

definition build_path :: "env \<Rightarrow> config \<Rightarrow> string \<Rightarrow> exn + string" where
  "build_path e cfg relative_path =
     (if relative_path = [] \<or> relative_path = ''/'' \<or> relative_path = ''.''
      then Inr (file_system_path cfg)
      else
        let path = path_join (file_system_path cfg) relative_path;
            abs_path = abspath (getcwd e) path;
            base_dir = abspath (getcwd e) (file_system_path cfg)
        in case commonpath abs_path base_dir of
             Inl x \<Rightarrow> Inl x
           | Inr c \<Rightarrow> if c \<noteq> base_dir then Inl (ValueError AccessDenied) else Inr abs_path)"

definition ensure_path_allowed :: "env \<Rightarrow> config \<Rightarrow> string \<Rightarrow> exn + unit" where
  "ensure_path_allowed e cfg relative_path =
     (case build_path e cfg relative_path of
        Inl x \<Rightarrow> Inl x
      | Inr canonical_path \<Rightarrow> require_path_is_in_excluded_folder cfg canonical_path)"

definition get_snapshot_root :: "env \<Rightarrow> config \<Rightarrow> exn + string" where
  "get_snapshot_root e cfg =
     (if \<not> truthy_str (snapshot_folder_name cfg) then Inl (ValueError SnapshotsDisabled)
      else
        let snapshot_root =
              abspath (getcwd e) (path_join (file_system_path cfg) (the (snapshot_folder_name cfg)))
        in if \<not> path_isdir e snapshot_root then Inl (ValueError SnapshotRootUnavailable)
           else Inr snapshot_root)"

definition build_snapshot_path :: "env \<Rightarrow> config \<Rightarrow> string \<Rightarrow> string \<Rightarrow> exn + string" where
  "build_snapshot_path e cfg snapshot_id relative_path =
     (case get_snapshot_root e cfg of
        Inl x \<Rightarrow> Inl x
      | Inr snapshot_root \<Rightarrow>
          let snapshot_base = abspath (getcwd e) (path_join snapshot_root snapshot_id)
          in if \<not> path_isdir e snapshot_base then Inl (ValueError SnapshotUnavailable)
             else if relative_path = [] \<or> relative_path = ''/'' \<or> relative_path = backslash
               then Inr snapshot_base
             else
               let abs_path = abspath (getcwd e) (path_join snapshot_base relative_path)
               in (case commonpath abs_path snapshot_base of
                     Inl x \<Rightarrow> Inl x
                   | Inr c \<Rightarrow>
                       if c \<noteq> snapshot_base then Inl (ValueError AccessDenied)
                       else Inr abs_path))"

text \<open>The aliases of the root: \<^verbatim>\<open>""\<close>, \<^verbatim>\<open>"/"\<close> and a single backslash.\<close>

definition normalize_root_alias :: "string \<Rightarrow> string" where
  "normalize_root_alias p = (if p = [] \<or> p = ''/'' \<or> p = backslash then [] else p)"

definition resolve_full_path :: "env \<Rightarrow> config \<Rightarrow> string \<Rightarrow> string option \<Rightarrow> exn + string" where
  "resolve_full_path e cfg relative_path snapshot_id =
     (let normalized_path = normalize_root_alias relative_path;
          resolved =
            (if truthy_str snapshot_id then
               (case ensure_path_allowed e cfg normalized_path of
                  Inl x \<Rightarrow> Inl x
                | Inr _ \<Rightarrow> build_snapshot_path e cfg (the snapshot_id) normalized_path)
             else
               (case build_path e cfg normalized_path of
                  Inl x \<Rightarrow> Inl x
                | Inr r \<Rightarrow>
                    (case require_path_is_in_excluded_folder cfg r of
                       Inl x \<Rightarrow> Inl x
                     | Inr _ \<Rightarrow> Inr r)))
      in case resolved of
           Inl x \<Rightarrow> Inl x
         | Inr r \<Rightarrow> if \<not> path_exists e r then Inl (ValueError NotFound) else Inr r)"

section \<open>Result models (\<open>models.py\<close>)\<close>

datatype folder_item = FolderItem (fo_name: string) (fo_path: string)

datatype file_item =
  FileItem (fi_name: string) (fi_path: string) (fi_size: int) (is_too_large: bool)

definition define_if_is_too_large :: "int \<Rightarrow> file_item \<Rightarrow> file_item" where
  "define_if_is_too_large max_size f =
     (if fi_size f > max_size then FileItem (fi_name f) (fi_path f) (fi_size f) True
      else f)"

text \<open>\<^verbatim>\<open>FileSystemItem\<close>: its \<^verbatim>\<open>item\<close> is a \<^verbatim>\<open>FolderItem\<close> or a \<^verbatim>\<open>FileItem\<close>.\<close>

datatype file_system_item = IsFolder folder_item | IsFile file_item

record folder_listing =
  folder :: folder_item
  subfolders :: "folder_item list"
  files :: "file_item list"

fun load_loop :: "file_system_item list \<Rightarrow> folder_listing \<Rightarrow> folder_listing" where
  "load_loop [] c = c"
| "load_loop (IsFolder f # items) c = load_loop items (c\<lparr>subfolders := subfolders c @ [f]\<rparr>)"
| "load_loop (IsFile f # items) c = load_loop items (c\<lparr>files := files c @ [f]\<rparr>)"

definition load_contents :: "folder_listing \<Rightarrow> file_system_item list \<Rightarrow> folder_listing" where
  "load_contents c items = load_loop items (c\<lparr>subfolders := [], files := []\<rparr>)"

datatype meta_value = Single string | Multiple "string list"

text \<open>
  A Python \<^verbatim>\<open>dict\<close> as the list of its items in insertion order;
  \<^verbatim>\<open>d[k] = v\<close> replaces the value of a present key in place and appends a new key.
\<close>

fun dict_set :: "'k \<Rightarrow> 'v \<Rightarrow> ('k \<times> 'v) list \<Rightarrow> ('k \<times> 'v) list" where
  "dict_set k v [] = [(k, v)]"
| "dict_set k v ((k', v') # kvs) =
     (if k' = k then (k, v) # kvs else (k', v') # dict_set k v kvs)"

record file_metadata =
  file_item :: file_item
  metadata :: "(string \<times> meta_value) list"

type_synonym datetime = "nat \<times> nat \<times> nat \<times> nat \<times> nat"

datatype snapshot_summary =
  SnapshotSummary (summary_id: string) (display_name: string)
    (timestamp: "datetime option") (contains_path: bool)

record snapshot_list =
  snapshot_folder :: string
  target_path :: string
  snapshots :: "snapshot_summary list"

section \<open>Folder listing\<close>

definition derive_folder_name :: "string \<Rightarrow> string" where
  "derive_folder_name relative_path =
     (if endswith relative_path ''/'' then basename (dirname relative_path)
      else basename relative_path)"

definition child_path :: "string \<Rightarrow> string \<Rightarrow> string" where
  "child_path relative_path name =
     (if relative_path \<noteq> [] \<and> \<not> endswith relative_path ''/'' then relative_path @ ''/''
      else relative_path) @ name"

text \<open>The first test of the loop body: the snapshot folder itself, in a live listing.\<close>

definition is_hidden_snapshot_root :: "config \<Rightarrow> string option \<Rightarrow> dir_entry \<Rightarrow> bool" where
  "is_hidden_snapshot_root cfg snapshot_id entry =
     (\<not> truthy_str snapshot_id \<and> entry_is_dir entry \<and> \<not> include_snapshot_root cfg
      \<and> truthy_str (snapshot_folder_name cfg)
      \<and> Some (entry_name entry) = snapshot_folder_name cfg)"

text \<open>
  The body of the loop up to \<^verbatim>\<open>items.append\<close>: \<open>Inr None\<close> is \<^verbatim>\<open>continue\<close>,
  \<open>Inr (Some item)\<close> the item to append, \<open>Inl\<close> an exception of \<^verbatim>\<open>_build_path\<close>.
\<close>

definition scan_entry ::
  "env \<Rightarrow> config \<Rightarrow> string option \<Rightarrow> string \<Rightarrow> dir_entry \<Rightarrow> exn + file_system_item option" where
  "scan_entry e cfg snapshot_id relative_path entry =
     (if is_hidden_snapshot_root cfg snapshot_id entry then Inr None
      else
        let item_path = child_path relative_path (entry_name entry)
        in if entry_is_dir entry then
             (case build_path e cfg item_path of
                Inl x \<Rightarrow> Inl x
              | Inr absolute_item_path \<Rightarrow>
                  if check_path_is_in_excluded_folder cfg absolute_item_path then Inr None
                  else Inr (Some (IsFolder (FolderItem (entry_name entry) item_path))))
           else
             (let item = FileItem (entry_name entry) item_path (entry_size entry) False
              in Inr (Some (IsFile
                   (if truthy_int (max_return_file_size cfg)
                    then define_if_is_too_large (the (max_return_file_size cfg)) item
                    else item)))))"

fun scan_loop ::
  "env \<Rightarrow> config \<Rightarrow> string option \<Rightarrow> string \<Rightarrow> int option \<Rightarrow> dir_entry list
     \<Rightarrow> file_system_item list \<Rightarrow> exn + file_system_item list" where
  "scan_loop e cfg snapshot_id relative_path scan_first_items [] items = Inr items"
| "scan_loop e cfg snapshot_id relative_path scan_first_items (entry # entries) items =
     (case scan_entry e cfg snapshot_id relative_path entry of
        Inl x \<Rightarrow> Inl x
      | Inr None \<Rightarrow> scan_loop e cfg snapshot_id relative_path scan_first_items entries items
      | Inr (Some item) \<Rightarrow>
          if truthy_int scan_first_items
             \<and> int (length (items @ [item])) \<ge> the scan_first_items
          then Inr (items @ [item])
          else scan_loop e cfg snapshot_id relative_path scan_first_items entries
                 (items @ [item]))"

text \<open>\<^verbatim>\<open>config.max_scan_items if scan_limit is None else scan_limit\<close>.\<close>

definition scan_first_items_of :: "config \<Rightarrow> int option \<Rightarrow> int option" where
  "scan_first_items_of cfg scan_limit =
     (case scan_limit of None \<Rightarrow> max_scan_items cfg | Some n \<Rightarrow> Some n)"

text \<open>The first statement of \<^verbatim>\<open>folder_contents\<close>: \<^verbatim>\<open>"/"\<close> and a backslash mean the root.\<close>

definition listing_path :: "string \<Rightarrow> string" where
  "listing_path path = (if path = ''/'' \<or> path = backslash then [] else path)"

definition folder_contents ::
  "env \<Rightarrow> config \<Rightarrow> string \<Rightarrow> int option \<Rightarrow> string option \<Rightarrow> exn + folder_listing" where
  "folder_contents e cfg path scan_limit snapshot_id =
     (let relative_path = listing_path path;
          scan_first_items = scan_first_items_of cfg scan_limit
      in case resolve_full_path e cfg relative_path snapshot_id of
           Inl x \<Rightarrow> Inl x
         | Inr folder_path \<Rightarrow>
             if \<not> path_isdir e folder_path then Inl (ValueError NotADirectory)
             else
               (case scan_loop e cfg snapshot_id relative_path scan_first_items
                       (scandir e folder_path) [] of
                  Inl x \<Rightarrow> Inl x
                | Inr items \<Rightarrow>
                    Inr (load_contents
                      \<lparr>folder = FolderItem (derive_folder_name relative_path) relative_path,
                       subfolders = [], files = []\<rparr> items)))"

section \<open>Metadata and file content\<close>

fun metadata_loop ::
  "(string \<times> string list) list \<Rightarrow> (string \<times> meta_value) list
     \<Rightarrow> (string \<times> meta_value) list" where
  "metadata_loop [] m = m"
| "metadata_loop ((key, vals) # rest) m =
     (if vals \<noteq> []
      then metadata_loop rest
             (dict_set key (if length vals > 1 then Multiple vals else Single (hd vals)) m)
      else metadata_loop rest m)"

definition get_metadata :: "env \<Rightarrow> config \<Rightarrow> string \<Rightarrow> string option \<Rightarrow> exn + file_metadata" where
  "get_metadata e cfg path snapshot_id =
     (if \<not> hachoir_installed e then Inl (ValueError Unavailable)
      else
        case resolve_full_path e cfg path snapshot_id of
          Inl x \<Rightarrow> Inl x
        | Inr full_path \<Rightarrow>
            if path_isdir e full_path then Inl (ValueError IsADirectory)
            else
              let item0 = FileItem (basename path) path (stat_size e full_path) False;
                  item = (if truthy_int (max_return_file_size cfg)
                          then define_if_is_too_large (the (max_return_file_size cfg)) item0
                          else item0)
              in if \<not> create_parser e full_path then Inl SystemExit
                 else Inr \<lparr>file_item = item,
                           metadata = (case extract_metadata e full_path of
                                         None \<Rightarrow> []
                                       | Some extracted \<Rightarrow> metadata_loop extracted [])\<rparr>)"




section \<open>Snapshot timestamps: \<open>datetime.strptime\<close> on the two formats of the source\<close>

text \<open>
  A naive \<^verbatim>\<open>datetime\<close> is its fields (year, month, day, hour, minute), compared
  lexicographically as Python compares them; neither format sets seconds or a time zone
  (\<^verbatim>\<open>%Z\<close> is matched and dropped). \<^verbatim>\<open>datetime.min\<close> is 0001-01-01 00:00.
\<close>

definition datetime_min :: datetime where
  "datetime_min = (1, 1, 1, 0, 0)"

definition in_range :: "char \<Rightarrow> char \<Rightarrow> char \<Rightarrow> bool" where
  "in_range lo hi c = (lo \<le> c \<and> c \<le> hi)"

definition is_digit :: "char \<Rightarrow> bool" where
  "is_digit c = in_range (CHR ''0'') (CHR ''9'') c"

definition ascii_lower :: "char \<Rightarrow> char" where
  "ascii_lower c =
     (if in_range (CHR ''A'') (CHR ''Z'') c then char_of (of_char c + (32 :: nat)) else c)"

text \<open>
  \<^verbatim>\<open>_strptime\<close> turns a format into a regular expression and takes the first match in
  the order of the alternatives. A matcher returns its matches in that order, each with
  the rest of the input: the head of the list is the match Python finds.
\<close>

fun alt1 :: "(char \<Rightarrow> bool) \<Rightarrow> string \<Rightarrow> (string \<times> string) list" where
  "alt1 P (a # rest) = (if P a then [([a], rest)] else [])"
| "alt1 P [] = []"

fun alt2 :: "(char \<Rightarrow> bool) \<Rightarrow> (char \<Rightarrow> bool) \<Rightarrow> string \<Rightarrow> (string \<times> string) list" where
  "alt2 P Q (a # b # rest) = (if P a \<and> Q b then [([a, b], rest)] else [])"
| "alt2 P Q [a] = []"
| "alt2 P Q [] = []"

fun lit :: "char \<Rightarrow> string \<Rightarrow> string list" where
  "lit c (x # xs) = (if x = c then [xs] else [])"
| "lit c [] = []"

text \<open>\<^verbatim>\<open>%Y\<close> is \<^verbatim>\<open>\d\d\d\d\<close>.\<close>

definition re_Y :: "string \<Rightarrow> (string \<times> string) list" where
  "re_Y s =
     (if 4 \<le> length s \<and> list_all is_digit (take 4 s) then [(take 4 s, drop 4 s)] else [])"

text \<open>\<^verbatim>\<open>%m\<close> is \<^verbatim>\<open>1[0-2]|0[1-9]|[1-9]\<close>.\<close>

definition re_m :: "string \<Rightarrow> (string \<times> string) list" where
  "re_m s =
     alt2 (\<lambda>c. c = CHR ''1'') (in_range (CHR ''0'') (CHR ''2'')) s
     @ alt2 (\<lambda>c. c = CHR ''0'') (in_range (CHR ''1'') (CHR ''9'')) s
     @ alt1 (in_range (CHR ''1'') (CHR ''9'')) s"

text \<open>\<^verbatim>\<open>%d\<close> is \<^verbatim>\<open>3[0-1]|[1-2]\d|0[1-9]|[1-9]| [1-9]\<close>.\<close>

definition re_d :: "string \<Rightarrow> (string \<times> string) list" where
  "re_d s =
     alt2 (\<lambda>c. c = CHR ''3'') (in_range (CHR ''0'') (CHR ''1'')) s
     @ alt2 (in_range (CHR ''1'') (CHR ''2'')) is_digit s
     @ alt2 (\<lambda>c. c = CHR ''0'') (in_range (CHR ''1'') (CHR ''9'')) s
     @ alt1 (in_range (CHR ''1'') (CHR ''9'')) s
     @ alt2 (\<lambda>c. c = CHR '' '') (in_range (CHR ''1'') (CHR ''9'')) s"

text \<open>\<^verbatim>\<open>%H\<close> is \<^verbatim>\<open>2[0-3]|[0-1]\d|\d\<close>.\<close>

definition re_H :: "string \<Rightarrow> (string \<times> string) list" where
  "re_H s =
     alt2 (\<lambda>c. c = CHR ''2'') (in_range (CHR ''0'') (CHR ''3'')) s
     @ alt2 (in_range (CHR ''0'') (CHR ''1'')) is_digit s
     @ alt1 is_digit s"

text \<open>\<^verbatim>\<open>%M\<close> is \<^verbatim>\<open>[0-5]\d|\d\<close>.\<close>

definition re_M :: "string \<Rightarrow> (string \<times> string) list" where
  "re_M s = alt2 (in_range (CHR ''0'') (CHR ''5'')) is_digit s @ alt1 is_digit s"

text \<open>
  \<^verbatim>\<open>%Z\<close> is the alternation of the time zone names of the locale (\<^verbatim>\<open>utc\<close>,
  \<^verbatim>\<open>gmt\<close> and \<^verbatim>\<open>time.tzname\<close>, lower case, longest first), matched without regard
  to case.
\<close>

definition re_Z :: "string list \<Rightarrow> string \<Rightarrow> string list" where
  "re_Z names s =
     concat (map (\<lambda>n. if length n \<le> length s \<and> map ascii_lower (take (length n) s) = n
                       then [drop (length n) s] else []) names)"

text \<open>The common part of both formats, \<^verbatim>\<open>%Y_%m_%d_%H.%M\<close>.\<close>

definition match_fields :: "string \<Rightarrow> ((string \<times> string \<times> string \<times> string \<times> string) \<times> string) list" where
  "match_fields s =
     [((y, m, d, H, M), r9).
        (y, r1) \<leftarrow> re_Y s, r2 \<leftarrow> lit (CHR ''_'') r1,
        (m, r3) \<leftarrow> re_m r2, r4 \<leftarrow> lit (CHR ''_'') r3,
        (d, r5) \<leftarrow> re_d r4, r6 \<leftarrow> lit (CHR ''_'') r5,
        (H, r7) \<leftarrow> re_H r6, r8 \<leftarrow> lit (CHR ''.'') r7,
        (M, r9) \<leftarrow> re_M r8]"

text \<open>\<^verbatim>\<open>int(s)\<close> on a matched field: decimal digits, surrounding blanks ignored.\<close>

definition py_int :: "string \<Rightarrow> nat" where
  "py_int s = foldl (\<lambda>n c. 10 * n + (of_char c - 48)) 0 (filter is_digit s)"

definition is_leap :: "nat \<Rightarrow> bool" where
  "is_leap y = (y mod 4 = 0 \<and> (y mod 100 \<noteq> 0 \<or> y mod 400 = 0))"

definition days_in_month :: "nat \<Rightarrow> nat \<Rightarrow> nat" where
  "days_in_month y m =
     (if m = 2 then (if is_leap y then 29 else 28)
      else if m = 4 \<or> m = 6 \<or> m = 9 \<or> m = 11 then 30 else 31)"

text \<open>The date must exist: year 0 and a day past the end of its month raise.\<close>

definition make_datetime :: "string \<times> string \<times> string \<times> string \<times> string \<Rightarrow> datetime option" where
  "make_datetime f =
     (case f of (y, m, d, H, M) \<Rightarrow>
        if 1 \<le> py_int y \<and> py_int d \<le> days_in_month (py_int y) (py_int m)
        then Some (py_int y, py_int m, py_int d, py_int H, py_int M)
        else None)"

text \<open>
  \<^verbatim>\<open>datetime.strptime(s, fmt)\<close>, \<open>None\<close> for its \<^verbatim>\<open>ValueError\<close>; \<open>tail\<close> matches
  what the format has after \<^verbatim>\<open>%M\<close>. The first match must reach the end of the input.
\<close>

definition strptime :: "(string \<Rightarrow> string list) \<Rightarrow> string \<Rightarrow> datetime option" where
  "strptime tail s =
     (case [(f, r'). (f, r) \<leftarrow> match_fields s, r' \<leftarrow> tail r] of
        [] \<Rightarrow> None
      | (f, rest) # _ \<Rightarrow> if rest \<noteq> [] then None else make_datetime f)"

definition parse_snapshot_timestamp :: "env \<Rightarrow> string \<Rightarrow> datetime option" where
  "parse_snapshot_timestamp e snapshot_id =
     (case strptime (re_Z (tz_names e)) snapshot_id of
        Some t \<Rightarrow> Some t
      | None \<Rightarrow> strptime (\<lambda>r. [r]) snapshot_id)"

section \<open>Snapshot listing\<close>

fun snapshot_loop ::
  "env \<Rightarrow> string \<Rightarrow> string \<Rightarrow> dir_entry list \<Rightarrow> snapshot_summary list \<Rightarrow> snapshot_summary list" where
  "snapshot_loop e snapshot_root target [] acc = acc"
| "snapshot_loop e snapshot_root target (entry # entries) acc =
     (if \<not> entry_is_dir entry then snapshot_loop e snapshot_root target entries acc
      else
        let snapshot_id = entry_name entry;
            ts = parse_snapshot_timestamp e snapshot_id;
            entry_path = path_join snapshot_root (entry_name entry);
            candidate_path = (if target \<noteq> [] then path_join entry_path target else entry_path);
            has_path = path_exists e candidate_path
        in snapshot_loop e snapshot_root target entries
             (acc @ [SnapshotSummary snapshot_id snapshot_id ts has_path]))"

text \<open>The key of the final sort.\<close>

definition snapshot_sort_key :: "snapshot_summary \<Rightarrow> datetime \<times> string" where
  "snapshot_sort_key item =
     ((case timestamp item of None \<Rightarrow> datetime_min | Some t \<Rightarrow> t), summary_id item)"

text \<open>
  \<^verbatim>\<open>list.sort(key=..., reverse=True)\<close>: CPython reverses the list, sorts it stably in
  ascending order and reverses the result.
\<close>

definition sort_reverse :: "('a \<Rightarrow> 'k::linorder) \<Rightarrow> 'a list \<Rightarrow> 'a list" where
  "sort_reverse key xs = rev (sort_key key (rev xs))"

definition list_snapshots :: "env \<Rightarrow> config \<Rightarrow> string \<Rightarrow> exn + snapshot_list" where
  "list_snapshots e cfg path =
     (let target = normalize_root_alias path
      in if \<not> truthy_str (snapshot_folder_name cfg)
         then Inr \<lparr>snapshot_folder = [], target_path = target, snapshots = []\<rparr>
         else
           (case get_snapshot_root e cfg of
              Inl (ValueError _) \<Rightarrow>
                Inr \<lparr>snapshot_folder = the (snapshot_folder_name cfg), target_path = target,
                     snapshots = []\<rparr>
            | Inl x \<Rightarrow> Inl x
            | Inr snapshot_root \<Rightarrow>
                (case ensure_path_allowed e cfg target of
                   Inl (ValueError _) \<Rightarrow>
                     Inr \<lparr>snapshot_folder = the (snapshot_folder_name cfg),
                          target_path = target, snapshots = []\<rparr>
                 | Inl x \<Rightarrow> Inl x
                 | Inr _ \<Rightarrow>
                     Inr \<lparr>snapshot_folder = the (snapshot_folder_name cfg),
                          target_path = target,
                          snapshots =
                            sort_reverse snapshot_sort_key
                              (snapshot_loop e snapshot_root target
                                 (scandir e snapshot_root) [])\<rparr>)))"

section \<open>Notions used to state the properties\<close>

text \<open>
  A path stays within a base when it is absolute, its components start with the
  components of the base, and none of them is \<^verbatim>\<open>..\<close> (empty and \<^verbatim>\<open>.\<close> components
  name no step and are not counted).
\<close>

definition stays_within :: "string \<Rightarrow> string \<Rightarrow> bool" where
  "stays_within base p =
     (isabs p \<and> prefix (path_parts base) (path_parts p) \<and> ''..'' \<notin> set (path_parts p))"

text \<open>The \<^verbatim>\<open>snapshot_base\<close> of \<^verbatim>\<open>_build_snapshot_path\<close>, as a function of its inputs.\<close>

definition snapshot_base_of :: "env \<Rightarrow> config \<Rightarrow> string \<Rightarrow> string" where
  "snapshot_base_of e cfg snapshot_id =
     abspath (getcwd e)
       (path_join
          (abspath (getcwd e)
             (path_join (file_system_path cfg) (the (snapshot_folder_name cfg))))
          snapshot_id)"

definition clean_comps :: "string list \<Rightarrow> bool" where
  "clean_comps cs = (\<forall>c \<in> set cs. c \<noteq> [] \<and> c \<noteq> ''.'' \<and> CHR ''/'' \<notin> set c)"

text \<open>The folders and the files among listed items, in order.\<close>

fun folders_of :: "file_system_item list \<Rightarrow> folder_item list" where
  "folders_of [] = []"
| "folders_of (IsFolder f # items) = f # folders_of items"
| "folders_of (IsFile f # items) = folders_of items"

fun files_of :: "file_system_item list \<Rightarrow> file_item list" where
  "files_of [] = []"
| "files_of (IsFolder f # items) = files_of items"
| "files_of (IsFile f # items) = f # files_of items"

text \<open>A listing was cut at the scan limit: the limit is set and was reached.\<close>

definition truncated :: "int option \<Rightarrow> folder_listing \<Rightarrow> bool" where
  "truncated scan_first_items c =
     (truthy_int scan_first_items
      \<and> int (length (subfolders c) + length (files c)) \<ge> the scan_first_items)"

section \<open>A sample share\<close>

text \<open>
  A root \<^verbatim>\<open>/srv/data\<close> with a snapshot folder \<^verbatim>\<open>.snapshot\<close>, an excluded folder
  \<^verbatim>\<open>secret\<close>, a return limit of 1 MB and a file of 10 MB.
\<close>

definition ex_cfg :: config where
  "ex_cfg =
     \<lparr>file_system_path = ''/srv/data'', snapshot_folder_name = Some ''.snapshot'',
      include_snapshot_root = False, exclude_folders = [''/srv/data/secret''],
      max_scan_items = None, max_return_file_size = Some 1048576,
      max_read_file_size = Some 52428800\<rparr>"

definition ex_dirs :: "string list" where
  "ex_dirs =
     [''/srv/data'', ''/srv/data/docs'', ''/srv/data/docs/.snapshot'', ''/srv/data/docs/old'',
      ''/srv/data/secret'', ''/srv/data/.snapshot'',
      ''/srv/data/.snapshot/weird_name'', ''/srv/data/.snapshot/2024_01_01_10.00'',
      ''/srv/data/.snapshot/2024_02_01_10.00'']"

definition ex_files :: "(string \<times> int \<times> bytes) list" where
  "ex_files =
     [(''/srv/data/big.bin'', 10485760, [77, 90]),
      (''/srv/data/notes.txt'', 2, [104, 105]),
      (''/srv/data/docs/report.pdf'', 4, [37, 80, 68, 70]),
      (''/srv/data/docs/old/.snapshot'', 1, [120]),
      (''/srv/data/secret/plan.txt'', 3, [97, 98, 99]),
      (''/srv/data/.snapshot/2024_01_01_10.00/notes.txt'', 3, [111, 108, 100])]"

definition ex_scandir :: "string \<Rightarrow> dir_entry list" where
  "ex_scandir p =
     (if p = ''/srv/data'' then
        [DirEntry ''docs'' True 4096, DirEntry ''.snapshot'' True 4096,
         DirEntry ''big.bin'' False 10485760, DirEntry ''secret'' True 4096,
         DirEntry ''notes.txt'' False 2]
      else if p = ''/srv/data/docs'' then
        [DirEntry ''.snapshot'' True 4096, DirEntry ''old'' True 4096,
         DirEntry ''report.pdf'' False 4]
      else if p = ''/srv/data/docs/old'' then [DirEntry ''.snapshot'' False 1]
      else if p = ''/srv/data/.snapshot'' then
        [DirEntry ''weird_name'' True 4096, DirEntry ''2024_01_01_10.00'' True 4096,
         DirEntry ''2024_02_01_10.00'' True 4096]
      else if p = ''/srv/data/.snapshot/2024_01_01_10.00'' then [DirEntry ''notes.txt'' False 3]
      else [])"

definition ex_env :: env where
  "ex_env =
     \<lparr>getcwd = ''/home/svc'',
      path_exists = (\<lambda>p. p \<in> set ex_dirs \<or> p \<in> set (map fst ex_files)),
      path_isdir = (\<lambda>p. p \<in> set ex_dirs),
      scandir = ex_scandir,
      stat_size = (\<lambda>p. case map_of ex_files p of Some (n, _) \<Rightarrow> n | None \<Rightarrow> 4096),
      read_bytes = (\<lambda>p. map_option snd (map_of ex_files p)),
      read_text = (\<lambda>p. None),
      hachoir_installed = True,
      create_parser = (\<lambda>p. p = ''/srv/data/docs/report.pdf''),
      extract_metadata = (\<lambda>p. Some [(''title'', [''Report'']), (''author'', [])]),
      tz_names = [''utc'', ''gmt'']\<rparr>"

text \<open>The same share where \<^verbatim>\<open>hachoir\<close> is not installed.\<close>

definition ex_env_no_hachoir :: env where
  "ex_env_no_hachoir = ex_env\<lparr>hachoir_installed := False\<rparr>"


text \<open>The same share with a snapshot named after the first minute of year 1.\<close>

definition ex_env_year_one :: env where
  "ex_env_year_one =
     ex_env\<lparr>scandir := (\<lambda>p. if p = ''/srv/data/.snapshot''
                              then [DirEntry ''0001_01_01_00.00'' True 4096,
                                    DirEntry ''zzz'' True 4096]
                              else ex_scandir p)\<rparr>"

text \<open>
  The sample share with its three snapshots enumerated in a given order, and the six
  orders in which \<^verbatim>\<open>os.scandir\<close> may return them.
\<close>

definition ex_env_order :: "dir_entry list \<Rightarrow> env" where
  "ex_env_order entries =
     ex_env\<lparr>scandir := (\<lambda>p. if p = ''/srv/data/.snapshot'' then entries else ex_scandir p)\<rparr>"

definition ex_snapshot_orders :: "dir_entry list list" where
  "ex_snapshot_orders =
     (let a = DirEntry ''2024_01_01_10.00'' True 4096;
          b = DirEntry ''2024_02_01_10.00'' True 4096;
          w = DirEntry ''weird_name'' True 4096
      in [[a, b, w], [a, w, b], [b, a, w], [b, w, a], [w, a, b], [w, b, a]])"

section \<open>Facts about the path functions\<close>

lemma split_sep_not_Nil [simp]: "split_sep s \<noteq> []"
  by (cases s) (simp_all split: list.splits)

lemma split_sep_append:
  "split_sep (xs @ CHR ''/'' # ys) = split_sep xs @ split_sep ys"
  by (induction xs) (simp_all split: list.splits)

lemma split_sep_no_sep: "CHR ''/'' \<notin> set x \<Longrightarrow> split_sep x = [x]"
  by (induction x) auto

lemma split_sep_slash_free: "c \<in> set (split_sep p) \<Longrightarrow> CHR ''/'' \<notin> set c"
proof (induction p arbitrary: c)
  case Nil
  then show ?case by simp
next
  case (Cons a p)
  obtain w ws where w: "split_sep p = w # ws"
    by (cases "split_sep p") simp_all
  show ?case
  proof (cases "a = CHR ''/''")
    case True
    with Cons show ?thesis by auto
  next
    case False
    with Cons.prems w have "c = a # w \<or> c \<in> set ws" by simp
    then show ?thesis
      using Cons.IH w False by auto
  qed
qed

lemma split_join_sep:
  "\<forall>c \<in> set cs. CHR ''/'' \<notin> set c \<Longrightarrow> cs \<noteq> [] \<Longrightarrow> split_sep (join_sep cs) = cs"
proof (induction cs rule: join_sep.induct)
  case 1
  then show ?case by simp
next
  case (2 x)
  then show ?case by (simp add: split_sep_no_sep)
next
  case (3 x y ys)
  then show ?case by (simp add: split_sep_append split_sep_no_sep)
qed

lemma path_parts_join_sep: "clean_comps cs \<Longrightarrow> path_parts (join_sep cs) = cs"
proof (cases "cs = []")
  case True
  then show ?thesis by (simp add: path_parts_def)
next
  case False
  assume "clean_comps cs"
  then have "split_sep (join_sep cs) = cs" and "filter (\<lambda>c. c \<noteq> [] \<and> c \<noteq> ''.'') cs = cs"
    using False by (auto simp: clean_comps_def split_join_sep intro: filter_True)
  then show ?thesis by (simp add: path_parts_def)
qed

lemma path_parts_slashes: "path_parts (replicate n (CHR ''/'') @ s) = path_parts s"
  by (induction n) (simp_all add: path_parts_def)

lemma clean_path_parts: "clean_comps (path_parts p)"
  by (auto simp: clean_comps_def path_parts_def dest: split_sep_slash_free)

lemma clean_comps_prefix: "prefix cs ds \<Longrightarrow> clean_comps ds \<Longrightarrow> clean_comps cs"
  by (auto simp: clean_comps_def dest: set_mono_prefix)

lemma common_loop_prefix:
  "common_loop a b = Some c \<Longrightarrow> prefix c a \<and> prefix c b"
  by (induction a b arbitrary: c rule: common_loop.induct) (auto split: if_splits)

lemma common_loop_le: "a \<le> b \<Longrightarrow> common_loop a b \<noteq> None"
  by (induction a b rule: common_loop.induct) auto

lemma common_loop_min_max: "common_loop (min a b) (max a b) \<noteq> None"
  by (rule common_loop_le) (auto simp: min_def max_def)

lemma commonpath_unfold:
  obtains common where
    "common_loop (min (path_parts p) (path_parts q)) (max (path_parts p) (path_parts q))
       = Some common"
    and "commonpath p q =
           (if isabs p \<noteq> isabs q then Inl (ValueError MixedPaths)
            else Inr ((if isabs p then ''/'' else []) @ join_sep common))"
proof -
  obtain c where c: "common_loop (min (path_parts p) (path_parts q))
                       (max (path_parts p) (path_parts q)) = Some c"
    using common_loop_min_max [of "path_parts p" "path_parts q"] by blast
  have "commonpath p q =
          (if isabs p \<noteq> isabs q then Inl (ValueError MixedPaths)
           else Inr ((if isabs p then ''/'' else []) @ join_sep c))"
    by (simp only: commonpath_def Let_def c option.case)
  with c that show thesis by blast
qed

lemma commonpath_no_IndexError: "commonpath p q \<noteq> Inl IndexError"
proof -
  obtain c where "commonpath p q =
           (if isabs p \<noteq> isabs q then Inl (ValueError MixedPaths)
            else Inr ((if isabs p then ''/'' else []) @ join_sep c))"
    by (rule commonpath_unfold)
  then show ?thesis by simp
qed

lemma commonpath_contains:
  assumes "commonpath p base = Inr base"
  shows "prefix (path_parts base) (path_parts p)"
proof -
  obtain common where
    loop: "common_loop (min (path_parts p) (path_parts base)) (max (path_parts p) (path_parts base)) = Some common"
    and cp: "commonpath p base =
           (if isabs p \<noteq> isabs base then Inl (ValueError MixedPaths)
            else Inr ((if isabs p then ''/'' else []) @ join_sep common))"
    by (rule commonpath_unfold)
  from cp assms have base: "base = (if isabs p then ''/'' else []) @ join_sep common"
    by (simp split: if_splits)
  from common_loop_prefix [OF loop]
  have pre: "prefix common (path_parts p)"
    by (auto simp: min_def max_def split: if_splits)
  then have "clean_comps common"
    using clean_comps_prefix clean_path_parts by blast
  then have "path_parts ((if isabs p then ''/'' else []) @ join_sep common) = common"
    using path_parts_slashes [of 1 "join_sep common"]
    by (simp add: path_parts_join_sep)
  with base have "path_parts base = common" by simp
  with pre show ?thesis by simp
qed


lemma normpath_loop_clean:
  "0 < ini \<Longrightarrow> \<forall>c \<in> set comps. CHR ''/'' \<notin> set c \<Longrightarrow> clean_comps new \<Longrightarrow> ''..'' \<notin> set new
   \<Longrightarrow> clean_comps (normpath_loop ini comps new) \<and> ''..'' \<notin> set (normpath_loop ini comps new)"
proof (induction comps arbitrary: new)
  case Nil
  then show ?case by simp
next
  case (Cons c comps)
  have butlast_ok: "clean_comps (butlast new) \<and> ''..'' \<notin> set (butlast new)"
    using Cons.prems(3,4) by (auto simp: clean_comps_def dest: in_set_butlastD)
  have snoc_ok: "c \<noteq> [] \<Longrightarrow> c \<noteq> ''.'' \<Longrightarrow> c \<noteq> ''..''
      \<Longrightarrow> clean_comps (new @ [c]) \<and> ''..'' \<notin> set (new @ [c])"
    using Cons.prems(2,3,4) by (auto simp: clean_comps_def)
  have rest: "\<forall>c \<in> set comps. CHR ''/'' \<notin> set c"
    using Cons.prems(2) by simp
  show ?case
  proof (cases "c = [] \<or> c = ''.''")
    case True
    then show ?thesis using Cons.IH [OF Cons.prems(1) rest Cons.prems(3,4)] by auto
  next
    case skip: False
    show ?thesis
    proof (cases "c = ''..''")
      case True
      show ?thesis
      proof (cases "new = []")
        case True
        with \<open>c = ''..''\<close> Cons.prems(1) show ?thesis
          using Cons.IH [OF Cons.prems(1) rest Cons.prems(3,4)] by simp
      next
        case False
        then have "last new \<in> set new" by simp
        with Cons.prems(4) have "last new \<noteq> ''..''" by auto
        with False \<open>c = ''..''\<close> Cons.prems(1) butlast_ok show ?thesis
          using Cons.IH [OF Cons.prems(1) rest, of "butlast new"] by simp
      qed
    next
      case False
      with skip snoc_ok have ok: "clean_comps (new @ [c])" "''..'' \<notin> set (new @ [c])"
        by auto
      from False skip show ?thesis
        using Cons.IH [OF Cons.prems(1) rest ok] by simp
    qed
  qed
qed

lemma isabs_Cons: "isabs s \<longleftrightarrow> (\<exists>t. s = CHR ''/'' # t)"
  by (cases s) (auto simp: isabs_def startswith_def)

lemma initial_slashes_isabs: "isabs x \<Longrightarrow> initial_slashes x = 1 \<or> initial_slashes x = 2"
  by (simp add: initial_slashes_def isabs_def)

lemma normpath_isabs_unfold:
  assumes "isabs x"
  shows "normpath x = replicate (initial_slashes x) (CHR ''/'')
                        @ join_sep (normpath_loop (initial_slashes x) (split_sep x) [])"
proof -
  from assms have "x \<noteq> []" by (auto simp: isabs_Cons)
  moreover have "replicate (initial_slashes x) (CHR ''/'') \<noteq> []"
    using initial_slashes_isabs [OF assms] by auto
  ultimately show ?thesis by (simp add: normpath_def Let_def)
qed

lemma normpath_isabs:
  assumes "isabs x"
  shows "isabs (normpath x)" and "''..'' \<notin> set (path_parts (normpath x))"
proof -
  let ?ini = "initial_slashes x"
  let ?cs = "normpath_loop ?ini (split_sep x) []"
  have ini: "?ini = 1 \<or> ?ini = 2" by (rule initial_slashes_isabs [OF assms])
  have eq: "normpath x = replicate ?ini (CHR ''/'') @ join_sep ?cs"
    by (rule normpath_isabs_unfold [OF assms])
  from ini show "isabs (normpath x)"
    unfolding eq by (auto simp: isabs_def startswith_def)
  have "clean_comps ?cs \<and> ''..'' \<notin> set ?cs"
    using ini by (intro normpath_loop_clean) (auto simp: clean_comps_def dest: split_sep_slash_free)
  then show "''..'' \<notin> set (path_parts (normpath x))"
    unfolding eq by (simp add: path_parts_slashes path_parts_join_sep)
qed

lemma isabs_path_join: "isabs a \<Longrightarrow> isabs (path_join a b)"
  by (cases a) (auto simp: path_join_def isabs_def startswith_def)

lemma abspath_isabs:
  assumes "isabs cwd"
  shows "isabs (abspath cwd p)" and "''..'' \<notin> set (path_parts (abspath cwd p))"
proof -
  have "isabs (if isabs p then p else path_join cwd p)"
    using assms by (simp add: isabs_path_join)
  then show "isabs (abspath cwd p)" and "''..'' \<notin> set (path_parts (abspath cwd p))"
    unfolding abspath_def by (rule normpath_isabs)+
qed

lemma stays_within_abspath:
  "isabs cwd \<Longrightarrow> commonpath (abspath cwd p) base = Inr base \<Longrightarrow> stays_within base (abspath cwd p)"
  by (simp add: stays_within_def abspath_isabs commonpath_contains)

lemma stays_within_refl: "isabs cwd \<Longrightarrow> stays_within (abspath cwd p) (abspath cwd p)"
  by (simp add: stays_within_def abspath_isabs)

lemma commonpath_not_mixed:
  "isabs p \<Longrightarrow> isabs q \<Longrightarrow> commonpath p q \<noteq> Inl (ValueError MixedPaths)"
  by (rule commonpath_unfold [of p q]) simp

lemma commonpath_cases:
  assumes "isabs p" "isabs q"
  obtains c where "commonpath p q = Inr c"
  by (rule commonpath_unfold [of p q]) (use assms in simp)

lemma build_path_cases:
  assumes "isabs (getcwd e)"
  shows "build_path e cfg rel = Inl (ValueError AccessDenied)
       \<or> build_path e cfg rel = Inr (file_system_path cfg)
       \<or> (\<exists>p. build_path e cfg rel = Inr p
              \<and> stays_within (abspath (getcwd e) (file_system_path cfg)) p)"
proof (cases "rel = [] \<or> rel = ''/'' \<or> rel = ''.''")
  case True
  then show ?thesis by (auto simp: build_path_def)
next
  case False
  let ?a = "abspath (getcwd e) (path_join (file_system_path cfg) rel)"
  let ?b = "abspath (getcwd e) (file_system_path cfg)"
  have "isabs ?a" and "isabs ?b"
    using assms by (simp_all add: abspath_isabs)
  then obtain c where c: "commonpath ?a ?b = Inr c"
    using commonpath_cases by blast
  show ?thesis
  proof (cases "c = ?b")
    case True
    with c assms have "stays_within ?b ?a" by (simp add: stays_within_abspath)
    moreover from False c True have "build_path e cfg rel = Inr ?a"
      by (simp add: build_path_def Let_def)
    ultimately show ?thesis by simp
  next
    case neq: False
    with False c have "build_path e cfg rel = Inl (ValueError AccessDenied)"
      by (simp add: build_path_def Let_def)
    then show ?thesis by simp
  qed
qed

section \<open>Path resolution stays within its root\<close>

lemma get_snapshot_root_Inr:
  "get_snapshot_root e cfg = Inr sr \<Longrightarrow>
     sr = abspath (getcwd e) (path_join (file_system_path cfg) (the (snapshot_folder_name cfg)))
     \<and> truthy_str (snapshot_folder_name cfg) \<and> path_isdir e sr"
  by (auto simp: get_snapshot_root_def Let_def split: if_splits)

lemma build_snapshot_path_cases:
  assumes "isabs (getcwd e)"
  shows "case build_snapshot_path e cfg sid rel of
           Inl x \<Rightarrow> x = ValueError AccessDenied \<or> get_snapshot_root e cfg = Inl x
                    \<or> (x = ValueError SnapshotUnavailable
                        \<and> \<not> path_isdir e (snapshot_base_of e cfg sid))
         | Inr p \<Rightarrow> stays_within (snapshot_base_of e cfg sid) p"
proof (cases "get_snapshot_root e cfg")
  case (Inl x)
  then show ?thesis by (simp add: build_snapshot_path_def)
next
  case (Inr sr)
  let ?b = "snapshot_base_of e cfg sid"
  from get_snapshot_root_Inr [OF Inr]
  have b: "abspath (getcwd e) (path_join sr sid) = ?b"
    by (simp add: snapshot_base_of_def)
  show ?thesis
  proof (cases "path_isdir e ?b")
    case False
    with Inr b show ?thesis by (simp add: build_snapshot_path_def Let_def)
  next
    case isdir: True
    show ?thesis
    proof (cases "rel = [] \<or> rel = ''/'' \<or> rel = backslash")
      case True
      have "stays_within ?b ?b"
        unfolding snapshot_base_of_def by (rule stays_within_refl [OF assms])
      with True Inr b isdir show ?thesis
        by (auto simp: build_snapshot_path_def Let_def)
    next
      case False
      let ?a = "abspath (getcwd e) (path_join ?b rel)"
      have "isabs ?a" and "isabs ?b"
        using assms by (simp_all add: abspath_isabs snapshot_base_of_def)
      then obtain c where c: "commonpath ?a ?b = Inr c"
        using commonpath_cases by blast
      show ?thesis
      proof (cases "c = ?b")
        case True
        with c assms have "stays_within ?b ?a" by (simp add: stays_within_abspath)
        moreover from False c True Inr b isdir
        have "build_snapshot_path e cfg sid rel = Inr ?a"
          by (simp add: build_snapshot_path_def Let_def)
        ultimately show ?thesis by simp
      next
        case neq: False
        with False c Inr b isdir
        have "build_snapshot_path e cfg sid rel = Inl (ValueError AccessDenied)"
          by (simp add: build_snapshot_path_def Let_def)
        then show ?thesis by simp
      qed
    qed
  qed
qed

text \<open>
  Claim C1. Whatever the relative path, \<^verbatim>\<open>_build_path\<close> either fails with
  "Access to the path is not allowed." or returns the configured root itself or a path that
  stays within the canonical root: absolute, below the root component by component, with
  no \<^verbatim>\<open>..\<close> left. \<^verbatim>\<open>_build_snapshot_path\<close> returns only paths that stay within the
  snapshot base; it fails with the access error, or because the snapshot root or the
  snapshot itself is not available. The working directory is absolute, as
  \<^verbatim>\<open>os.getcwd()\<close> is.
\<close>

theorem resolution_never_leaves_its_root:
  assumes "isabs (getcwd e)"
  shows "(case build_path e cfg rel of
            Inl x \<Rightarrow> x = ValueError AccessDenied
          | Inr p \<Rightarrow> p = file_system_path cfg
                     \<or> stays_within (abspath (getcwd e) (file_system_path cfg)) p)
       \<and> (case build_snapshot_path e cfg sid rel of
            Inl x \<Rightarrow> x = ValueError AccessDenied \<or> get_snapshot_root e cfg = Inl x
                     \<or> (x = ValueError SnapshotUnavailable
                         \<and> \<not> path_isdir e (snapshot_base_of e cfg sid))
          | Inr p \<Rightarrow> stays_within (snapshot_base_of e cfg sid) p)"
proof
  show "case build_path e cfg rel of
          Inl x \<Rightarrow> x = ValueError AccessDenied
        | Inr p \<Rightarrow> p = file_system_path cfg
                   \<or> stays_within (abspath (getcwd e) (file_system_path cfg)) p"
    using build_path_cases [OF assms, of cfg rel] by auto
  show "case build_snapshot_path e cfg sid rel of
            Inl x \<Rightarrow> x = ValueError AccessDenied \<or> get_snapshot_root e cfg = Inl x
                     \<or> (x = ValueError SnapshotUnavailable
                         \<and> \<not> path_isdir e (snapshot_base_of e cfg sid))
          | Inr p \<Rightarrow> stays_within (snapshot_base_of e cfg sid) p"
    by (rule build_snapshot_path_cases [OF assms])
qed

lemma ex_build_path_values:
  "build_path ex_env ex_cfg ''docs/../../../etc/passwd'' = Inl (ValueError AccessDenied)"
  "build_path ex_env ex_cfg ''docs/../notes.txt'' = Inr ''/srv/data/notes.txt''"
  "build_snapshot_path ex_env ex_cfg ''2024_01_01_10.00'' ''../../notes.txt''
     = Inl (ValueError AccessDenied)"
  "build_snapshot_path ex_env ex_cfg ''2024_01_01_10.00'' ''docs/../notes.txt''
     = Inr ''/srv/data/.snapshot/2024_01_01_10.00/notes.txt''"
  by code_simp+

theorem resolution_never_leaves_its_root_witness:
  "isabs (getcwd ex_env)
   \<and> build_path ex_env ex_cfg ''docs/../notes.txt'' = Inr ''/srv/data/notes.txt''
   \<and> stays_within (abspath (getcwd ex_env) (file_system_path ex_cfg)) ''/srv/data/notes.txt''
   \<and> build_snapshot_path ex_env ex_cfg ''2024_01_01_10.00'' ''docs/../notes.txt''
       = Inr ''/srv/data/.snapshot/2024_01_01_10.00/notes.txt''
   \<and> stays_within (snapshot_base_of ex_env ex_cfg ''2024_01_01_10.00'')
         ''/srv/data/.snapshot/2024_01_01_10.00/notes.txt''"
proof -
  have cwd: "isabs (getcwd ex_env)" by code_simp
  have root: "file_system_path ex_cfg \<noteq> ''/srv/data/notes.txt''" by code_simp
  from resolution_never_leaves_its_root
         [OF cwd, of ex_cfg "''docs/../notes.txt''" "''2024_01_01_10.00''"]
  show ?thesis using cwd root by (simp add: ex_build_path_values)
qed

section \<open>Excluded folders\<close>


lemma resolve_full_path_alias:
  "resolve_full_path e cfg (listing_path path) sid = resolve_full_path e cfg path sid"
  by (simp add: resolve_full_path_def normalize_root_alias_def listing_path_def)





section \<open>Folder listing: what the scan keeps\<close>

lemma load_loop_parts:
  "subfolders (load_loop items c) = subfolders c @ folders_of items"
  "files (load_loop items c) = files c @ files_of items"
  "folder (load_loop items c) = folder c"
  by (induction items c rule: load_loop.induct) simp_all

lemma load_contents_parts:
  "subfolders (load_contents c items) = folders_of items"
  "files (load_contents c items) = files_of items"
  "folder (load_contents c items) = folder c"
  by (simp_all add: load_contents_def load_loop_parts)

lemma length_folders_files:
  "length (folders_of items) + length (files_of items) = length items"
  by (induction items rule: folders_of.induct) simp_all

lemma in_folders_of: "f \<in> set (folders_of items) \<longleftrightarrow> IsFolder f \<in> set items"
  by (induction items rule: folders_of.induct) auto

lemma in_files_of: "f \<in> set (files_of items) \<longleftrightarrow> IsFile f \<in> set items"
  by (induction items rule: files_of.induct) auto

lemma folder_contents_Inr:
  assumes "folder_contents e cfg path scan_limit sid = Inr c"
  obtains fp items where
    "resolve_full_path e cfg path sid = Inr fp"
    "path_isdir e fp"
    "scan_loop e cfg sid (listing_path path) (scan_first_items_of cfg scan_limit)
       (scandir e fp) [] = Inr items"
    "subfolders c = folders_of items"
    "files c = files_of items"
    "folder c = FolderItem (derive_folder_name (listing_path path)) (listing_path path)"
proof -
  from assms obtain fp where fp: "resolve_full_path e cfg path sid = Inr fp"
    unfolding folder_contents_def Let_def resolve_full_path_alias
    by (cases "resolve_full_path e cfg path sid") simp_all
  from assms fp have dir: "path_isdir e fp"
    unfolding folder_contents_def Let_def resolve_full_path_alias
    by (simp split: if_splits)
  from assms fp dir obtain items where
    items: "scan_loop e cfg sid (listing_path path) (scan_first_items_of cfg scan_limit)
              (scandir e fp) [] = Inr items"
    unfolding folder_contents_def Let_def resolve_full_path_alias
    by (cases "scan_loop e cfg sid (listing_path path) (scan_first_items_of cfg scan_limit)
                 (scandir e fp) []") simp_all
  from assms fp dir items
  have c: "c = load_contents
              \<lparr>folder = FolderItem (derive_folder_name (listing_path path)) (listing_path path),
               subfolders = [], files = []\<rparr> items"
    unfolding folder_contents_def Let_def resolve_full_path_alias by simp
  show thesis
    by (rule that [OF fp dir items]) (simp_all add: c load_contents_parts)
qed


lemma scan_loop_keeps_items:
  "scan_loop e cfg sid rel lim entries items = Inr res \<Longrightarrow> set items \<subseteq> set res"
proof (induction entries arbitrary: items)
  case Nil
  then show ?case by simp
next
  case (Cons entry entries)
  from Cons.prems show ?case
    by (auto split: sum.splits option.splits if_splits dest!: Cons.IH)
qed

lemma scan_loop_length:
  "scan_loop e cfg sid rel lim entries items = Inr res \<Longrightarrow> length items \<le> length res"
proof (induction entries arbitrary: items)
  case Nil
  then show ?case by simp
next
  case (Cons entry entries)
  from Cons.prems show ?case
    by (auto split: sum.splits option.splits if_splits dest!: Cons.IH)
qed

lemma scan_loop_kept_or_cut:
  "scan_loop e cfg sid rel lim entries items = Inr res \<Longrightarrow> entry \<in> set entries
   \<Longrightarrow> scan_entry e cfg sid rel entry = Inr (Some item)
   \<Longrightarrow> item \<in> set res \<or> (truthy_int lim \<and> int (length res) \<ge> the lim)"
proof (induction entries arbitrary: items)
  case Nil
  then show ?case by simp
next
  case (Cons en entries)
  show ?case
  proof (cases "scan_entry e cfg sid rel en")
    case (Inl x)
    with Cons.prems show ?thesis by simp
  next
    case (Inr r)
    show ?thesis
    proof (cases r)
      case None
      with Inr Cons.prems have "entry \<in> set entries"
        and "scan_loop e cfg sid rel lim entries items = Inr res" by auto
      with Cons.IH Cons.prems(3) show ?thesis by blast
    next
      case (Some it)
      show ?thesis
      proof (cases "truthy_int lim \<and> int (length (items @ [it])) \<ge> the lim")
        case True
        with Some Inr Cons.prems(1) have "res = items @ [it]" by simp
        with True show ?thesis by simp
      next
        case False
        with Some Inr Cons.prems(1)
        have loop: "scan_loop e cfg sid rel lim entries (items @ [it]) = Inr res" by auto
        show ?thesis
        proof (cases "entry = en")
          case True
          with Inr Some Cons.prems(3) have "item = it" by simp
          with scan_loop_keeps_items [OF loop] show ?thesis by auto
        next
          case False
          with Cons.prems(2) have "entry \<in> set entries" by simp
          with Cons.IH [OF loop] Cons.prems(3) show ?thesis by blast
        qed
      qed
    qed
  qed
qed

lemma scan_loop_origin:
  "scan_loop e cfg sid rel lim entries items = Inr res \<Longrightarrow> x \<in> set res
   \<Longrightarrow> x \<in> set items \<or> (\<exists>entry \<in> set entries. scan_entry e cfg sid rel entry = Inr (Some x))"
proof (induction entries arbitrary: items)
  case Nil
  then show ?case by simp
next
  case (Cons en entries)
  show ?case
  proof (cases "scan_entry e cfg sid rel en")
    case (Inl y)
    with Cons.prems show ?thesis by simp
  next
    case (Inr r)
    show ?thesis
    proof (cases r)
      case None
      with Inr Cons.prems have "scan_loop e cfg sid rel lim entries items = Inr res" by simp
      from Cons.IH [OF this Cons.prems(2)] show ?thesis by auto
    next
      case (Some it)
      show ?thesis
      proof (cases "truthy_int lim \<and> int (length (items @ [it])) \<ge> the lim")
        case True
        with Some Inr Cons.prems(1) have "res = items @ [it]" by simp
        with Cons.prems(2) Some Inr show ?thesis by auto
      next
        case False
        with Some Inr Cons.prems(1)
        have "scan_loop e cfg sid rel lim entries (items @ [it]) = Inr res" by auto
        from Cons.IH [OF this Cons.prems(2)] Some Inr show ?thesis by auto
      qed
    qed
  qed
qed

lemma scan_entry_folder:
  "scan_entry e cfg sid rel entry = Inr (Some (IsFolder f))
   \<Longrightarrow> entry_is_dir entry \<and> fo_name f = entry_name entry
       \<and> fo_path f = child_path rel (entry_name entry)
       \<and> \<not> is_hidden_snapshot_root cfg sid entry"
  by (auto simp: scan_entry_def Let_def split: if_splits sum.splits)

lemma scan_entry_file:
  "\<not> entry_is_dir entry \<Longrightarrow>
   scan_entry e cfg sid rel entry =
     Inr (Some (IsFile (FileItem (entry_name entry) (child_path rel (entry_name entry))
        (entry_size entry)
        (truthy_int (max_return_file_size cfg)
         \<and> entry_size entry > the (max_return_file_size cfg)))))"
  by (simp add: scan_entry_def Let_def is_hidden_snapshot_root_def define_if_is_too_large_def)



lemma ex_listing_values:
  "folder_contents ex_env ex_cfg [] (Some 2) None =
     Inr \<lparr>folder = FolderItem [] [], subfolders = [FolderItem ''docs'' ''docs''],
          files = [FileItem ''big.bin'' ''big.bin'' 10485760 True]\<rparr>"
  "folder_contents ex_env ex_cfg [] None None =
     Inr \<lparr>folder = FolderItem [] [], subfolders = [FolderItem ''docs'' ''docs''],
          files = [FileItem ''big.bin'' ''big.bin'' 10485760 True,
                   FileItem ''notes.txt'' ''notes.txt'' 2 False]\<rparr>"
  "folder_contents ex_env ex_cfg ''docs'' None None =
     Inr \<lparr>folder = FolderItem ''docs'' ''docs'',
          subfolders = [FolderItem ''old'' ''docs/old''],
          files = [FileItem ''report.pdf'' ''docs/report.pdf'' 4 False]\<rparr>"
  "folder_contents ex_env ex_cfg ''docs/old'' None None =
     Inr \<lparr>folder = FolderItem ''old'' ''docs/old'', subfolders = [],
          files = [FileItem ''.snapshot'' ''docs/old/.snapshot'' 1 False]\<rparr>"
  by code_simp+


text \<open>
  Claim C10. In a live listing of any folder, with a snapshot folder name configured and
  \<^verbatim>\<open>include_snapshot_root\<close> off, no subfolder of the result bears that name, whatever the
  depth of the listed folder; a file child of that name is listed unless the listing was cut
  at the scan limit.
\<close>

theorem snapshot_folder_hidden_at_any_depth:
  assumes "folder_contents e cfg path scan_limit sid = Inr c"
      and "\<not> truthy_str sid" and "\<not> include_snapshot_root cfg"
      and "snapshot_folder_name cfg = Some n" and "n \<noteq> []"
  shows "(\<forall>f \<in> set (subfolders c). fo_name f \<noteq> n)
       \<and> (\<forall>fp entry.
            resolve_full_path e cfg path sid = Inr fp \<and> entry \<in> set (scandir e fp)
            \<and> \<not> entry_is_dir entry \<and> entry_name entry = n
            \<longrightarrow> (\<exists>f \<in> set (files c). fi_name f = n)
                \<or> truncated (scan_first_items_of cfg scan_limit) c)"
proof -
  let ?lim = "scan_first_items_of cfg scan_limit"
  let ?rel = "listing_path path"
  from assms(1) obtain fp items where
    fp: "resolve_full_path e cfg path sid = Inr fp"
    and loop: "scan_loop e cfg sid ?rel ?lim (scandir e fp) [] = Inr items"
    and sub: "subfolders c = folders_of items"
    and fil: "files c = files_of items"
    by (rule folder_contents_Inr)
  have len: "length (subfolders c) + length (files c) = length items"
    by (simp add: sub fil length_folders_files)
  have no_dir: "fo_name f \<noteq> n" if "f \<in> set (subfolders c)" for f
  proof -
    from that have "IsFolder f \<in> set items" by (simp add: sub in_folders_of)
    from scan_loop_origin [OF loop this] obtain entry where
      "scan_entry e cfg sid ?rel entry = Inr (Some (IsFolder f))" by auto
    from scan_entry_folder [OF this] assms(2-5) show ?thesis
      by (auto simp: is_hidden_snapshot_root_def)
  qed
  have file_kept: "(\<exists>f \<in> set (files c). fi_name f = n) \<or> truncated ?lim c"
    if "entry \<in> set (scandir e fp)" "\<not> entry_is_dir entry" "entry_name entry = n" for entry
  proof -
    let ?f = "FileItem (entry_name entry) (child_path ?rel (entry_name entry))
                (entry_size entry)
                (truthy_int (max_return_file_size cfg)
                 \<and> entry_size entry > the (max_return_file_size cfg))"
    from scan_loop_kept_or_cut [OF loop that(1) scan_entry_file [OF that(2)]]
    have "IsFile ?f \<in> set items \<or> (truthy_int ?lim \<and> int (length items) \<ge> the ?lim)" .
    then show ?thesis
    proof
      assume "IsFile ?f \<in> set items"
      then have "?f \<in> set (files c)" by (simp add: fil in_files_of)
      moreover have "fi_name ?f = n" using that(3) by simp
      ultimately show ?thesis by blast
    next
      assume "truthy_int ?lim \<and> int (length items) \<ge> the ?lim"
      then show ?thesis by (simp add: truncated_def len)
    qed
  qed
  from no_dir file_kept fp show ?thesis by auto
qed

theorem snapshot_folder_hidden_at_any_depth_witness:
  "folder_contents ex_env ex_cfg ''docs'' None None =
     Inr \<lparr>folder = FolderItem ''docs'' ''docs'',
          subfolders = [FolderItem ''old'' ''docs/old''],
          files = [FileItem ''report.pdf'' ''docs/report.pdf'' 4 False]\<rparr>
   \<and> DirEntry ''.snapshot'' True 4096 \<in> set (scandir ex_env ''/srv/data/docs'')
   \<and> \<not> truthy_str None \<and> \<not> include_snapshot_root ex_cfg
   \<and> snapshot_folder_name ex_cfg = Some ''.snapshot'' \<and> ''.snapshot'' \<noteq> []
   \<and> fo_name (FolderItem ''old'' ''docs/old'') \<noteq> ''.snapshot''
   \<and> resolve_full_path ex_env ex_cfg ''docs/old'' None = Inr ''/srv/data/docs/old''
   \<and> DirEntry ''.snapshot'' False 1 \<in> set (scandir ex_env ''/srv/data/docs/old'')
   \<and> folder_contents ex_env ex_cfg ''docs/old'' None None =
       Inr \<lparr>folder = FolderItem ''old'' ''docs/old'', subfolders = [],
            files = [FileItem ''.snapshot'' ''docs/old/.snapshot'' 1 False]\<rparr>
   \<and> fi_name (FileItem ''.snapshot'' ''docs/old/.snapshot'' 1 False) = ''.snapshot''"
proof -
  have cfg: "\<not> include_snapshot_root ex_cfg" "snapshot_folder_name ex_cfg = Some ''.snapshot''"
    by code_simp+
  have dir: "DirEntry ''.snapshot'' True 4096 \<in> set (scandir ex_env ''/srv/data/docs'')"
    by code_simp
  have old: "resolve_full_path ex_env ex_cfg ''docs/old'' None = Inr ''/srv/data/docs/old''"
    "DirEntry ''.snapshot'' False 1 \<in> set (scandir ex_env ''/srv/data/docs/old'')"
    by code_simp+
  have triv: "\<not> truthy_str None" "''.snapshot'' \<noteq> []" by simp_all
  from snapshot_folder_hidden_at_any_depth [OF ex_listing_values(3) triv(1) cfg triv(2)]
  have "fo_name (FolderItem ''old'' ''docs/old'') \<noteq> ''.snapshot''"
    by simp
  then show ?thesis using cfg dir old by (simp add: ex_listing_values(3,4))
qed

section \<open>Metadata failures\<close>

lemma get_metadata_failures:
  "\<not> hachoir_installed e \<Longrightarrow> get_metadata e cfg path sid = Inl (ValueError Unavailable)"
  "hachoir_installed e \<Longrightarrow> resolve_full_path e cfg path sid = Inr fp \<Longrightarrow> \<not> path_isdir e fp
   \<Longrightarrow> \<not> create_parser e fp \<Longrightarrow> get_metadata e cfg path sid = Inl SystemExit"
  by (simp_all add: get_metadata_def Let_def)

text \<open>
  Claim C3 on the code. Without \<^verbatim>\<open>hachoir\<close> the call fails with the ordinary "not
  available" \<^verbatim>\<open>ValueError\<close>. With \<^verbatim>\<open>hachoir\<close> installed and a file it cannot parse
  (\<^verbatim>\<open>notes.txt\<close> of the sample share), the call raises \<^verbatim>\<open>SystemExit\<close>, the request to
  end the interpreter, where the claim expects an ordinary error.
\<close>

theorem get_metadata_unparsable_file_raises_SystemExit:
  "hachoir_installed ex_env
   \<and> resolve_full_path ex_env ex_cfg ''notes.txt'' None = Inr ''/srv/data/notes.txt''
   \<and> \<not> path_isdir ex_env ''/srv/data/notes.txt''
   \<and> \<not> create_parser ex_env ''/srv/data/notes.txt''
   \<and> get_metadata ex_env ex_cfg ''notes.txt'' None = Inl SystemExit
   \<and> get_metadata ex_env_no_hachoir ex_cfg ''notes.txt'' None = Inl (ValueError Unavailable)"
  by code_simp

section \<open>Size limits\<close>







section \<open>Snapshot listing never raises\<close>









section \<open>Order of the snapshot listing\<close>

lemma sort_reverse_sorted:
  "sorted_wrt (\<lambda>x y. key y \<le> key x) (sort_reverse key xs)"
proof -
  have "sorted (map key (sort_key key (rev xs)))" by (rule sorted_sort_key)
  then have "sorted_wrt (\<lambda>x y. key x \<le> key y) (sort_key key (rev xs))"
    by (simp add: sorted_map)
  then show ?thesis
    by (simp add: sort_reverse_def sorted_wrt_rev)
qed

lemma set_sort_reverse: "set (sort_reverse key xs) = set xs"
  by (simp add: sort_reverse_def)

lemma snapshot_loop_timestamps:
  "\<forall>s \<in> set acc. timestamp s = parse_snapshot_timestamp e (summary_id s)
   \<Longrightarrow> \<forall>s \<in> set (snapshot_loop e root target entries acc).
         timestamp s = parse_snapshot_timestamp e (summary_id s)"
proof (induction entries arbitrary: acc)
  case Nil
  then show ?case by simp
next
  case (Cons entry entries)
  show ?case
  proof (cases "entry_is_dir entry")
    case False
    with Cons show ?thesis by simp
  next
    case True
    let ?s = "SnapshotSummary (entry_name entry) (entry_name entry)
                (parse_snapshot_timestamp e (entry_name entry))
                (path_exists e (if target \<noteq> []
                                then path_join (path_join root (entry_name entry)) target
                                else path_join root (entry_name entry)))"
    have "\<forall>s \<in> set (acc @ [?s]). timestamp s = parse_snapshot_timestamp e (summary_id s)"
      using Cons.prems by simp
    from Cons.IH [OF this] True show ?thesis by (simp add: Let_def)
  qed
qed

lemma alt2_elem:
  "(x, r) \<in> set (alt2 P Q s) \<Longrightarrow> \<exists>a b. x = [a, b] \<and> P a \<and> Q b \<and> s = a # b # r"
  by (cases "(P, Q, s)" rule: alt2.cases) (auto split: if_splits)

lemma alt1_elem:
  "(x, r) \<in> set (alt1 P s) \<Longrightarrow> \<exists>a. x = [a] \<and> P a \<and> s = a # r"
  by (cases "(P, s)" rule: alt1.cases) (auto split: if_splits)

lemma digit_value:
  "in_range lo hi c \<Longrightarrow> CHR ''0'' \<le> lo \<Longrightarrow> hi \<le> CHR ''9''
   \<Longrightarrow> is_digit c \<and> of_char lo - 48 \<le> (of_char c - 48 :: nat)"
  by (auto simp: in_range_def is_digit_def less_eq_char_def)

lemma py_int_two:
  "is_digit a \<Longrightarrow> is_digit b \<Longrightarrow> py_int [a, b] = 10 * (of_char a - 48) + (of_char b - 48)"
  by (simp add: py_int_def)

lemma py_int_one: "is_digit a \<Longrightarrow> py_int [a] = of_char a - 48"
  by (simp add: py_int_def)

lemma py_int_blank: "is_digit b \<Longrightarrow> py_int [CHR '' '', b] = of_char b - 48"
  by (simp add: py_int_def is_digit_def in_range_def)

lemma re_m_positive: "(m, r) \<in> set (re_m s) \<Longrightarrow> 1 \<le> py_int m"
proof -
  assume "(m, r) \<in> set (re_m s)"
  then consider
      a b where "m = [a, b]" "a = CHR ''1''" "in_range (CHR ''0'') (CHR ''2'') b"
    | a b where "m = [a, b]" "a = CHR ''0''" "in_range (CHR ''1'') (CHR ''9'') b"
    | a where "m = [a]" "in_range (CHR ''1'') (CHR ''9'') a"
    unfolding re_m_def by (auto dest!: alt2_elem alt1_elem)
  then show ?thesis
  proof cases
    case 1
    from digit_value [OF 1(3)] have "is_digit b" by simp
    moreover have "is_digit (CHR ''1'')" by (simp add: is_digit_def in_range_def)
    ultimately show ?thesis using 1 by (simp add: py_int_two)
  next
    case 2
    from digit_value [OF 2(3)] have "is_digit b" "1 \<le> (of_char b - 48 :: nat)" by simp_all
    moreover have "is_digit (CHR ''0'')" by (simp add: is_digit_def in_range_def)
    ultimately show ?thesis using 2 by (simp add: py_int_two)
  next
    case 3
    from digit_value [OF 3(2)] have "is_digit a" "1 \<le> (of_char a - 48 :: nat)" by simp_all
    then show ?thesis using 3 by (simp add: py_int_one)
  qed
qed

lemma re_d_positive: "(d, r) \<in> set (re_d s) \<Longrightarrow> 1 \<le> py_int d"
proof -
  assume "(d, r) \<in> set (re_d s)"
  then consider
      a b where "d = [a, b]" "a = CHR ''3''" "in_range (CHR ''0'') (CHR ''1'') b"
    | a b where "d = [a, b]" "in_range (CHR ''1'') (CHR ''2'') a" "is_digit b"
    | a b where "d = [a, b]" "a = CHR ''0''" "in_range (CHR ''1'') (CHR ''9'') b"
    | a where "d = [a]" "in_range (CHR ''1'') (CHR ''9'') a"
    | a b where "d = [a, b]" "a = CHR '' ''" "in_range (CHR ''1'') (CHR ''9'') b"
    unfolding re_d_def by (auto dest!: alt2_elem alt1_elem)
  then show ?thesis
  proof cases
    case 1
    from digit_value [OF 1(3)] have "is_digit b" by simp
    moreover have "is_digit (CHR ''3'')" by (simp add: is_digit_def in_range_def)
    ultimately show ?thesis using 1 by (simp add: py_int_two)
  next
    case 2
    from digit_value [OF 2(2)] have "is_digit a" "1 \<le> (of_char a - 48 :: nat)" by simp_all
    then show ?thesis using 2 by (simp add: py_int_two)
  next
    case 3
    from digit_value [OF 3(3)] have "is_digit b" "1 \<le> (of_char b - 48 :: nat)" by simp_all
    moreover have "is_digit (CHR ''0'')" by (simp add: is_digit_def in_range_def)
    ultimately show ?thesis using 3 by (simp add: py_int_two)
  next
    case 4
    from digit_value [OF 4(2)] have "is_digit a" "1 \<le> (of_char a - 48 :: nat)" by simp_all
    then show ?thesis using 4 by (simp add: py_int_one)
  next
    case 5
    from digit_value [OF 5(3)] have "is_digit b" "1 \<le> (of_char b - 48 :: nat)" by simp_all
    then show ?thesis using 5 by (simp add: py_int_blank)
  qed
qed

lemma match_fields_elem:
  "((y, m, d, H, M), r) \<in> set (match_fields s)
   \<Longrightarrow> (\<exists>s' r'. (m, r') \<in> set (re_m s')) \<and> (\<exists>s' r'. (d, r') \<in> set (re_d s'))"
  by (auto simp: match_fields_def)

lemma strptime_Some:
  "strptime tail s = Some t
   \<Longrightarrow> \<exists>f r. (f, r) \<in> set (match_fields s) \<and> make_datetime f = Some t"
proof -
  assume a: "strptime tail s = Some t"
  let ?ms = "[(f, r'). (f, r) \<leftarrow> match_fields s, r' \<leftarrow> tail r]"
  from a obtain f rest ms where ms: "?ms = (f, rest) # ms" and f: "make_datetime f = Some t"
    unfolding strptime_def by (auto split: list.splits if_splits)
  have "(f, rest) \<in> set ?ms" unfolding ms by simp
  then obtain r where "(f, r) \<in> set (match_fields s)" by auto
  with f show ?thesis by blast
qed

lemma strptime_not_before_min: "strptime tail s = Some t \<Longrightarrow> datetime_min \<le> t"
proof -
  assume "strptime tail s = Some t"
  then obtain f r where f: "(f, r) \<in> set (match_fields s)" and t: "make_datetime f = Some t"
    using strptime_Some by blast
  obtain y m d H M where fy: "f = (y, m, d, H, M)" by (cases f) auto
  from f fy match_fields_elem have "1 \<le> py_int m" and "1 \<le> py_int d"
    using re_m_positive re_d_positive by blast+
  moreover from t fy have "1 \<le> py_int y"
    and "t = (py_int y, py_int m, py_int d, py_int H, py_int M)"
    by (auto simp: make_datetime_def split: if_splits)
  ultimately show ?thesis by (auto simp: datetime_min_def)
qed

lemma parse_not_before_min:
  "parse_snapshot_timestamp e s = Some t \<Longrightarrow> datetime_min \<le> t"
  by (auto simp: parse_snapshot_timestamp_def split: option.splits
        dest: strptime_not_before_min)

lemma list_snapshots_Inr:
  assumes "list_snapshots e cfg path = Inr r"
  shows "snapshots r = [] \<or>
         (\<exists>root. snapshots r = sort_reverse snapshot_sort_key
                   (snapshot_loop e root (normalize_root_alias path) (scandir e root) []))"
  using assms
  by (auto simp: list_snapshots_def Let_def split: if_splits sum.splits exn.splits)

lemma snapshot_loop_env:
  "tz_names e = tz_names e' \<Longrightarrow> path_exists e = path_exists e'
   \<Longrightarrow> snapshot_loop e root target entries acc = snapshot_loop e' root target entries acc"
  by (induction entries arbitrary: acc) (simp_all add: parse_snapshot_timestamp_def Let_def)

lemma build_path_env: "getcwd e = getcwd e' \<Longrightarrow> build_path e cfg rel = build_path e' cfg rel"
  by (simp add: build_path_def)

lemma get_snapshot_root_env:
  "getcwd e = getcwd e' \<Longrightarrow> path_isdir e = path_isdir e'
   \<Longrightarrow> get_snapshot_root e cfg = get_snapshot_root e' cfg"
  by (simp add: get_snapshot_root_def)

lemma ex_env_order_fields:
  "getcwd (ex_env_order entries) = getcwd ex_env"
  "path_isdir (ex_env_order entries) = path_isdir ex_env"
  "path_exists (ex_env_order entries) = path_exists ex_env"
  "tz_names (ex_env_order entries) = tz_names ex_env"
  "scandir (ex_env_order entries) ''/srv/data/.snapshot'' = entries"
  by (simp_all add: ex_env_order_def)

lemma ex_snapshot_root:
  "get_snapshot_root ex_env ex_cfg = Inr ''/srv/data/.snapshot''"
  "ensure_path_allowed ex_env ex_cfg [] = Inr ()"
  "truthy_str (snapshot_folder_name ex_cfg)"
  "the (snapshot_folder_name ex_cfg) = ''.snapshot''"
  by code_simp+

lemma ex_list_snapshots_order:
  "list_snapshots (ex_env_order entries) ex_cfg [] =
     Inr \<lparr>snapshot_folder = ''.snapshot'', target_path = [],
          snapshots = sort_reverse snapshot_sort_key
                        (snapshot_loop ex_env ''/srv/data/.snapshot'' [] entries [])\<rparr>"
proof -
  have "get_snapshot_root (ex_env_order entries) ex_cfg = Inr ''/srv/data/.snapshot''"
    using ex_snapshot_root(1)
    by (simp add: get_snapshot_root_env [of "ex_env_order entries" ex_env] ex_env_order_fields)
  moreover have "ensure_path_allowed (ex_env_order entries) ex_cfg [] = Inr ()"
    using ex_snapshot_root(2)
    by (simp add: ensure_path_allowed_def
          build_path_env [of "ex_env_order entries" ex_env] ex_env_order_fields)
  moreover have "snapshot_loop (ex_env_order entries) ''/srv/data/.snapshot'' [] entries []
                   = snapshot_loop ex_env ''/srv/data/.snapshot'' [] entries []"
    by (rule snapshot_loop_env) (simp_all add: ex_env_order_fields)
  ultimately show ?thesis
    by (simp add: list_snapshots_def normalize_root_alias_def ex_snapshot_root(3,4)
          ex_env_order_fields)
qed

lemma ex_sorted_orders:
  "map summary_id (sort_reverse snapshot_sort_key
     (snapshot_loop ex_env ''/srv/data/.snapshot'' []
        [DirEntry ''2024_01_01_10.00'' True 4096, DirEntry ''2024_02_01_10.00'' True 4096,
         DirEntry ''weird_name'' True 4096] []))
     = [''2024_02_01_10.00'', ''2024_01_01_10.00'', ''weird_name'']"
  "map summary_id (sort_reverse snapshot_sort_key
     (snapshot_loop ex_env ''/srv/data/.snapshot'' []
        [DirEntry ''2024_01_01_10.00'' True 4096, DirEntry ''weird_name'' True 4096,
         DirEntry ''2024_02_01_10.00'' True 4096] []))
     = [''2024_02_01_10.00'', ''2024_01_01_10.00'', ''weird_name'']"
  "map summary_id (sort_reverse snapshot_sort_key
     (snapshot_loop ex_env ''/srv/data/.snapshot'' []
        [DirEntry ''2024_02_01_10.00'' True 4096, DirEntry ''2024_01_01_10.00'' True 4096,
         DirEntry ''weird_name'' True 4096] []))
     = [''2024_02_01_10.00'', ''2024_01_01_10.00'', ''weird_name'']"
  "map summary_id (sort_reverse snapshot_sort_key
     (snapshot_loop ex_env ''/srv/data/.snapshot'' []
        [DirEntry ''2024_02_01_10.00'' True 4096, DirEntry ''weird_name'' True 4096,
         DirEntry ''2024_01_01_10.00'' True 4096] []))
     = [''2024_02_01_10.00'', ''2024_01_01_10.00'', ''weird_name'']"
  "map summary_id (sort_reverse snapshot_sort_key
     (snapshot_loop ex_env ''/srv/data/.snapshot'' []
        [DirEntry ''weird_name'' True 4096, DirEntry ''2024_01_01_10.00'' True 4096,
         DirEntry ''2024_02_01_10.00'' True 4096] []))
     = [''2024_02_01_10.00'', ''2024_01_01_10.00'', ''weird_name'']"
  "map summary_id (sort_reverse snapshot_sort_key
     (snapshot_loop ex_env ''/srv/data/.snapshot'' []
        [DirEntry ''weird_name'' True 4096, DirEntry ''2024_02_01_10.00'' True 4096,
         DirEntry ''2024_01_01_10.00'' True 4096] []))
     = [''2024_02_01_10.00'', ''2024_01_01_10.00'', ''weird_name'']"
  by code_simp+

lemma ex_snapshot_orders_sorted:
  "list_all
     (\<lambda>entries.
        map_sum id (\<lambda>r. map summary_id (snapshots r))
          (list_snapshots (ex_env_order entries) ex_cfg [])
        = Inr [''2024_02_01_10.00'', ''2024_01_01_10.00'', ''weird_name''])
     ex_snapshot_orders"
  by (simp add: ex_snapshot_orders_def Let_def ex_list_snapshots_order ex_sorted_orders
        del: snapshot_loop.simps)

text \<open>
  Claim C4, amended. The snapshots of a listing are in descending order of the key
  (timestamp, id), where an id that does not parse takes \<^verbatim>\<open>datetime.min\<close> as its
  timestamp. So after an entry that did not parse come only entries with a smaller or equal
  id that did not parse either or that parsed to \<^verbatim>\<open>datetime.min\<close> itself: an
  unparsed entry follows every entry that parsed to a later timestamp. For the snapshots
  \<^verbatim>\<open>2024_01_01_10.00\<close>, \<^verbatim>\<open>2024_02_01_10.00\<close> and \<^verbatim>\<open>weird_name\<close>, enumerated in any
  order, the ids come out as \<^verbatim>\<open>2024_02_01_10.00\<close>, \<^verbatim>\<open>2024_01_01_10.00\<close>,
  \<^verbatim>\<open>weird_name\<close>.
\<close>

theorem snapshots_sorted_newest_first:
  assumes "list_snapshots e cfg path = Inr r"
  shows "sorted_wrt (\<lambda>x y. snapshot_sort_key y \<le> snapshot_sort_key x) (snapshots r)
       \<and> (\<forall>i j. i < j \<and> j < length (snapshots r) \<and> timestamp (snapshots r ! i) = None
            \<longrightarrow> summary_id (snapshots r ! j) \<le> summary_id (snapshots r ! i)
                \<and> (timestamp (snapshots r ! j) = None
                    \<or> timestamp (snapshots r ! j) = Some datetime_min))
       \<and> list_all
           (\<lambda>entries.
              map_sum id (\<lambda>r. map summary_id (snapshots r))
                (list_snapshots (ex_env_order entries) ex_cfg [])
              = Inr [''2024_02_01_10.00'', ''2024_01_01_10.00'', ''weird_name''])
           ex_snapshot_orders"
proof -
  let ?xs = "snapshots r"
  have sorted: "sorted_wrt (\<lambda>x y. snapshot_sort_key y \<le> snapshot_sort_key x) ?xs"
    using list_snapshots_Inr [OF assms] by (auto simp: sort_reverse_sorted)
  have parsed: "timestamp s = parse_snapshot_timestamp e (summary_id s)" if "s \<in> set ?xs" for s
  proof -
    from list_snapshots_Inr [OF assms] that obtain root where
      "s \<in> set (snapshot_loop e root (normalize_root_alias path) (scandir e root) [])"
      by (auto simp: set_sort_reverse)
    with snapshot_loop_timestamps [of "[]" e root "normalize_root_alias path" "scandir e root"]
    show ?thesis by simp
  qed
  have after: "summary_id (?xs ! j) \<le> summary_id (?xs ! i)
                \<and> (timestamp (?xs ! j) = None \<or> timestamp (?xs ! j) = Some datetime_min)"
    if "i < j" "j < length ?xs" "timestamp (?xs ! i) = None" for i j
  proof -
    from sorted that(1,2)
    have le: "snapshot_sort_key (?xs ! j) \<le> snapshot_sort_key (?xs ! i)"
      by (simp add: sorted_wrt_iff_nth_less)
    show ?thesis
    proof (cases "timestamp (?xs ! j)")
      case None
      with le that(3) show ?thesis by (simp add: snapshot_sort_key_def)
    next
      case (Some t)
      from that(2) have "?xs ! j \<in> set ?xs" by simp
      from parsed [OF this] Some have "datetime_min \<le> t"
        using parse_not_before_min by simp
      with le that(3) Some show ?thesis
        by (auto simp: snapshot_sort_key_def)
    qed
  qed
  from sorted after ex_snapshot_orders_sorted show ?thesis by blast
qed

lemma ex_list_snapshots_values:
  "list_snapshots ex_env ex_cfg [] =
     Inr \<lparr>snapshot_folder = ''.snapshot'', target_path = [],
          snapshots =
            [SnapshotSummary ''2024_02_01_10.00'' ''2024_02_01_10.00''
               (Some (2024, 2, 1, 10, 0)) True,
             SnapshotSummary ''2024_01_01_10.00'' ''2024_01_01_10.00''
               (Some (2024, 1, 1, 10, 0)) True,
             SnapshotSummary ''weird_name'' ''weird_name'' None True]\<rparr>"
  "list_snapshots ex_env_year_one ex_cfg [] =
     Inr \<lparr>snapshot_folder = ''.snapshot'', target_path = [],
          snapshots =
            [SnapshotSummary ''zzz'' ''zzz'' None False,
             SnapshotSummary ''0001_01_01_00.00'' ''0001_01_01_00.00''
               (Some (1, 1, 1, 0, 0)) False]\<rparr>"
  by code_simp+

theorem snapshots_sorted_newest_first_witness:
  "list_snapshots ex_env ex_cfg [] =
     Inr \<lparr>snapshot_folder = ''.snapshot'', target_path = [],
          snapshots =
            [SnapshotSummary ''2024_02_01_10.00'' ''2024_02_01_10.00''
               (Some (2024, 2, 1, 10, 0)) True,
             SnapshotSummary ''2024_01_01_10.00'' ''2024_01_01_10.00''
               (Some (2024, 1, 1, 10, 0)) True,
             SnapshotSummary ''weird_name'' ''weird_name'' None True]\<rparr>
   \<and> sorted_wrt (\<lambda>x y. snapshot_sort_key y \<le> snapshot_sort_key x)
        [SnapshotSummary ''2024_02_01_10.00'' ''2024_02_01_10.00''
           (Some (2024, 2, 1, 10, 0)) True,
         SnapshotSummary ''2024_01_01_10.00'' ''2024_01_01_10.00''
           (Some (2024, 1, 1, 10, 0)) True,
         SnapshotSummary ''weird_name'' ''weird_name'' None True]"
  using snapshots_sorted_newest_first [OF ex_list_snapshots_values(1)]
  by (simp add: ex_list_snapshots_values(1))

text \<open>
  Claim C4 as stated fails where it says that an entry that does not parse appears after
  all parsed entries: \<^verbatim>\<open>0001_01_01_00.00\<close> parses to \<^verbatim>\<open>datetime.min\<close>, the timestamp
  that \<^verbatim>\<open>zzz\<close> is given, and the greater id \<^verbatim>\<open>zzz\<close> comes first.
\<close>

theorem unparsed_before_parsed_counterexample:
  "list_snapshots ex_env_year_one ex_cfg [] =
     Inr \<lparr>snapshot_folder = ''.snapshot'', target_path = [],
          snapshots =
            [SnapshotSummary ''zzz'' ''zzz'' None False,
             SnapshotSummary ''0001_01_01_00.00'' ''0001_01_01_00.00''
               (Some (1, 1, 1, 0, 0)) False]\<rparr>
   \<and> parse_snapshot_timestamp ex_env_year_one ''zzz'' = None
   \<and> parse_snapshot_timestamp ex_env_year_one ''0001_01_01_00.00'' = Some (1, 1, 1, 0, 0)"
  by code_simp

end
